theory Spec2Isabelle
  imports Complex_Main
begin

section \<open>Python values and errors\<close>

text \<open>
  The exceptions that the two modules can raise or let through. Only the
  \<open>RuntimeError\<close> carries a message, because it is the only one whose text is
  written in the source (\<open>composite.py\<close>); the others are raised by the Python
  runtime or by a collaborator.
\<close>

datatype error =
    IndexError
  | KeyError
  | TypeError
  | RuntimeError string

text \<open>
  The objects a \<open>children\<close> attribute can hold. The abstract property only documents a
  list of samplers; the docstring of \<open>composite.py\<close> sets \<open>children = None\<close> at class
  level, so other objects are representable too.
\<close>

datatype 'a pyvalue =
    PyNone
  | PyInt int
  | PyList "'a list"
  | PyTuple "'a list"
  | PyDict "(int \<times> 'a) list"

text \<open>Indexing a sequence: negative indices count from the end, out of range raises.\<close>

definition seq_getitem :: "'a list \<Rightarrow> int \<Rightarrow> error + 'a" where
  "seq_getitem xs i =
     (if 0 \<le> i \<and> i < int (length xs) then Inr (xs ! nat i)
      else if i < 0 \<and> - int (length xs) \<le> i then Inr (xs ! nat (int (length xs) + i))
      else Inl IndexError)"

text \<open>
  The subscript \<open>obj[i]\<close>: \<open>None\<close> and integers are not subscriptable, sequences are
  indexed, a dict is looked up by key.
\<close>

fun getitem :: "'a pyvalue \<Rightarrow> int \<Rightarrow> error + 'a" where
  "getitem PyNone i = Inl TypeError"
| "getitem (PyInt k) i = Inl TypeError"
| "getitem (PyList xs) i = seq_getitem xs i"
| "getitem (PyTuple xs) i = seq_getitem xs i"
| "getitem (PyDict kvs) i = (case map_of kvs i of None \<Rightarrow> Inl KeyError | Some v \<Rightarrow> Inr v)"

fun subscriptable :: "'a pyvalue \<Rightarrow> bool" where
  "subscriptable PyNone = False"
| "subscriptable (PyInt k) = False"
| "subscriptable (PyList xs) = True"
| "subscriptable (PyTuple xs) = True"
| "subscriptable (PyDict kvs) = True"

section \<open>Composite (\<open>dimod/core/composite.py\<close>)\<close>

text \<open>
  A concrete composite supplies the abstract property \<open>children\<close>; the instance is the
  value of that attribute.
\<close>

record 'a composite =
  children :: "'a pyvalue"

definition no_child_message :: string where
  "no_child_message = ''A Composite must have at least one child Sampler''"

text \<open>
  \<open>Composite.child\<close>: \<open>try: return self.children[0]\<close>, and only an \<open>IndexError\<close> is
  caught and replaced by the \<open>RuntimeError\<close>.
\<close>

definition child :: "'a composite \<Rightarrow> error + 'a" where
  "child self =
     (case getitem (children self) 0 of
        Inr c \<Rightarrow> Inr c
      | Inl IndexError \<Rightarrow> Inl (RuntimeError no_child_message)
      | Inl e \<Rightarrow> Inl e)"

section \<open>Collaborators of the exact solver\<close>

text \<open>
  Modelled from the spec: the variable-domain tag (\<open>dimod.Vartype\<close>, whose module is
  not among the sources). It selects one of exactly two two-valued domains, the signed
  one and the 0/1 one. \<open>vartype_value\<close> is \<open>vartype.value\<close> in the order in which the
  solver iterates over it; for the signed domain that order is \<open>+1, -1\<close>, as the row
  numbers printed in the docstring of \<open>ExactSolver\<close> show.
\<close>

datatype vartype = SPIN | BINARY

fun vartype_value :: "vartype \<Rightarrow> int list" where
  "vartype_value SPIN = [1, - 1]"
| "vartype_value BINARY = [0, 1]"

text \<open>
  Modelled from the spec: the Quadratic Model (\<open>dimod.BinaryQuadraticModel\<close>, not
  among the sources): the variables in insertion order, linear biases (variable to
  number), quadratic biases (variable pair to number), an offset and the domain tag.
  \<open>len(bqm)\<close> is the number of variables and \<open>list(bqm)\<close> lists them in order. Numbers
  are modelled as reals.
\<close>

record 'v bqm =
  variables :: "'v list"
  linear_biases :: "('v \<times> real) list"
  quadratic_biases :: "(('v \<times> 'v) \<times> real) list"
  offset :: real
  vartype :: vartype

text \<open>
  Modelled from the spec: the invariant of a Quadratic Model, every variable that a
  bias refers to exists in the variable set.
\<close>

definition wf_bqm :: "'v bqm \<Rightarrow> bool" where
  "wf_bqm bqm \<longleftrightarrow>
     list_all (\<lambda>(v, b). v \<in> set (variables bqm)) (linear_biases bqm) \<and>
     list_all (\<lambda>((u, v), b). u \<in> set (variables bqm) \<and> v \<in> set (variables bqm))
       (quadratic_biases bqm)"

text \<open>
  Modelled from the spec: the model's energy evaluation on one assignment, linear
  contribution plus quadratic contribution plus offset. An assignment maps variables to
  values; a bias on a variable that the assignment does not hold is the malformed model
  state of the spec, and the evaluation raises.
\<close>

type_synonym 'v assignment = "'v \<rightharpoonup> int"

fun linear_energy :: "'v assignment \<Rightarrow> ('v \<times> real) list \<Rightarrow> error + real" where
  "linear_energy s [] = Inr 0"
| "linear_energy s ((v, b) # rest) =
     (case s v of
        None \<Rightarrow> Inl KeyError
      | Some x \<Rightarrow>
          (case linear_energy s rest of
             Inl e \<Rightarrow> Inl e
           | Inr t \<Rightarrow> Inr (b * real_of_int x + t)))"

fun quadratic_energy :: "'v assignment \<Rightarrow> (('v \<times> 'v) \<times> real) list \<Rightarrow> error + real" where
  "quadratic_energy s [] = Inr 0"
| "quadratic_energy s (((u, v), b) # rest) =
     (case s u of
        None \<Rightarrow> Inl KeyError
      | Some x \<Rightarrow>
          (case s v of
             None \<Rightarrow> Inl KeyError
           | Some y \<Rightarrow>
               (case quadratic_energy s rest of
                  Inl e \<Rightarrow> Inl e
                | Inr t \<Rightarrow> Inr (b * real_of_int x * real_of_int y + t))))"

definition energy :: "'v bqm \<Rightarrow> 'v assignment \<Rightarrow> error + real" where
  "energy bqm s =
     (case linear_energy s (linear_biases bqm) of
        Inl e \<Rightarrow> Inl e
      | Inr l \<Rightarrow>
          (case quadratic_energy s (quadratic_biases bqm) of
             Inl e \<Rightarrow> Inl e
           | Inr q \<Rightarrow> Inr (l + q + offset bqm)))"

text \<open>The assignment that a row of the sample matrix stands for under the labels.\<close>

definition assignment_of :: "'v list \<Rightarrow> int list \<Rightarrow> 'v assignment" where
  "assignment_of labels row = Map.empty(labels [\<mapsto>] row)"

text \<open>The energies of the rows of a sample matrix, in row order.\<close>

fun energies :: "'v bqm \<Rightarrow> 'v list \<Rightarrow> int list list \<Rightarrow> error + real list" where
  "energies bqm labels [] = Inr []"
| "energies bqm labels (row # rows) =
     (case energy bqm (assignment_of labels row) of
        Inl e \<Rightarrow> Inl e
      | Inr en \<Rightarrow>
          (case energies bqm labels rows of
             Inl e \<Rightarrow> Inl e
           | Inr ens \<Rightarrow> Inr (en # ens)))"

text \<open>
  Modelled from the spec: the Result Set (\<open>dimod.SampleSet\<close>, not among the sources):
  an ordered sequence of (assignment vector, energy, occurrence count) records, the
  variable labels of the columns and the domain tag.
\<close>

record 'v sampleset =
  records :: "(int list \<times> real \<times> nat) list"
  ss_variables :: "'v list"
  ss_vartype :: vartype

text \<open>
  Modelled from the spec: \<open>SampleSet.from_samples\<close>, the constructor from a sample
  matrix with its labels, a domain tag and the energies; every record gets the
  occurrence count 1, and nothing is deduplicated, sorted or filtered. The spec
  describes it for the empty matrix and the empty energy collection.
\<close>

definition from_samples :: "int list list \<times> 'v list \<Rightarrow> vartype \<Rightarrow> real list \<Rightarrow> 'v sampleset" where
  "from_samples samples_like vt energy_list =
     \<lparr>records = map (\<lambda>(row, en). (row, en, 1)) (zip (fst samples_like) energy_list),
      ss_variables = snd samples_like,
      ss_vartype = vt\<rparr>"

text \<open>
  Modelled from the spec: \<open>SampleSet.from_samples_bqm\<close>, the constructor from a
  sample matrix with its labels and the source model, from which the energies and the
  domain are derived. An error of the energy evaluation is propagated.
\<close>

definition from_samples_bqm :: "int list list \<times> 'v list \<Rightarrow> 'v bqm \<Rightarrow> error + 'v sampleset" where
  "from_samples_bqm samples_like bqm =
     (case energies bqm (snd samples_like) (fst samples_like) of
        Inl e \<Rightarrow> Inl e
      | Inr ens \<Rightarrow> Inr (from_samples samples_like (vartype bqm) ens))"

text \<open>
  \<open>itertools.product(pool, repeat=n)\<close> of the Python standard library, after the
  equivalent code of its documentation: start from the single empty tuple and, once per
  repetition of the pool, extend every tuple built so far by every value of the pool.
\<close>

definition product_step :: "'a list \<Rightarrow> 'a list list \<Rightarrow> 'a list list" where
  "product_step pool result = concat (map (\<lambda>x. map (\<lambda>y. x @ [y]) pool) result)"

definition itertools_product :: "'a list \<Rightarrow> nat \<Rightarrow> 'a list list" where
  "itertools_product pool repeat = fold product_step (replicate repeat pool) [[]]"

text \<open>
  The order as the spec words it: the values of the domain nested outer to inner over
  the \<open>n\<close> positions, the first position outermost.
\<close>

fun lex_product :: "'a list \<Rightarrow> nat \<Rightarrow> 'a list list" where
  "lex_product vals 0 = [[]]"
| "lex_product vals (Suc n) = concat (map (\<lambda>v. map (\<lambda>rest. v # rest) (lex_product vals n)) vals)"

section \<open>ExactSolver (\<open>dimod/reference/samplers/exact_solver.py\<close>)\<close>

text \<open>
  The instance state: the two attributes, \<open>None\<close> at class level and set to empty
  dicts by \<open>__init__\<close>.
\<close>

record exact_solver =
  properties :: "(string \<rightharpoonup> string) option"
  parameters :: "(string \<rightharpoonup> string) option"

definition class_attributes :: exact_solver where
  "class_attributes = \<lparr>properties = None, parameters = None\<rparr>"

definition init :: "exact_solver \<Rightarrow> exact_solver" where
  "init self = self\<lparr>properties := Some Map.empty, parameters := Some Map.empty\<rparr>"

text \<open>
  \<open>ExactSolver.sample(self, bqm)\<close>. The method assigns to no attribute of \<open>self\<close>;
  the instance is returned beside the result to make that visible.
\<close>

definition sample :: "exact_solver \<Rightarrow> 'v bqm \<Rightarrow> (error + 'v sampleset) \<times> exact_solver" where
  "sample self bqm =
     (let n = length (variables bqm) in
      if n = 0 then (Inr (from_samples ([], []) (vartype bqm) []), self)
      else
        let samples = itertools_product (vartype_value (vartype bqm)) n;
            response = from_samples_bqm (samples, variables bqm) bqm
        in (response, self))"

text \<open>
  The call \<open>solver.sample(model, **configuration)\<close>. The signature is
  \<open>sample(self, bqm)\<close>, with no keyword catch-all: both parameters are bound
  positionally, so a keyword named after one of them is a second value for it and any
  other keyword is unexpected. Python raises \<open>TypeError\<close> in both cases, before the
  body runs.
\<close>

definition sample_call ::
  "exact_solver \<Rightarrow> 'v bqm \<Rightarrow> (string \<times> 'k) list \<Rightarrow> (error + 'v sampleset) \<times> exact_solver" where
  "sample_call self bqm configuration =
     (if configuration = [] then sample self bqm else (Inl TypeError, self))"

section \<open>Example models\<close>

text \<open>
  The two-variable Ising model of the docstring of \<open>ExactSolver\<close>
  (\<open>h = {'a': -0.5, 'b': 1.0}\<close>, \<open>J = {('a', 'b'): -1.5}\<close>), and a malformed model
  whose linear bias refers to a variable outside the variable set.
\<close>

definition example_bqm :: "string bqm" where
  "example_bqm =
     \<lparr>variables = [''a'', ''b''],
      linear_biases = [(''a'', - (1 / 2)), (''b'', 1)],
      quadratic_biases = [((''a'', ''b''), - (3 / 2))],
      offset = 0,
      vartype = SPIN\<rparr>"

definition malformed_bqm :: "string bqm" where
  "malformed_bqm =
     \<lparr>variables = [''a''],
      linear_biases = [(''b'', 1)],
      quadratic_biases = [],
      offset = 0,
      vartype = BINARY\<rparr>"

section \<open>Properties of the child accessor\<close>

lemma seq_getitem_0: "seq_getitem xs 0 = (case xs of [] \<Rightarrow> Inl IndexError | x # _ \<Rightarrow> Inr x)"
  by (cases xs) (simp_all add: seq_getitem_def)

lemma child_list: "children self = PyList xs \<Longrightarrow>
  child self = (case xs of [] \<Rightarrow> Inl (RuntimeError no_child_message) | x # _ \<Rightarrow> Inr x)"
  by (cases xs) (simp_all add: child_def seq_getitem_0)

lemma child_runtime_iff:
  "child self = Inl (RuntimeError m) \<longleftrightarrow>
     m = no_child_message \<and> getitem (children self) 0 = Inl IndexError"
proof (cases "getitem (children self) 0")
  case (Inl e)
  then show ?thesis
  proof (cases "children self")
    case PyNone with Inl show ?thesis by (auto simp: child_def)
  next
    case (PyInt k) with Inl show ?thesis by (auto simp: child_def)
  next
    case (PyList xs) with Inl show ?thesis
      by (cases xs) (auto simp: child_def seq_getitem_0)
  next
    case (PyTuple xs) with Inl show ?thesis
      by (cases xs) (auto simp: child_def seq_getitem_0)
  next
    case (PyDict kvs) with Inl show ?thesis
      by (auto simp: child_def split: option.splits)
  qed
next
  case (Inr c)
  then show ?thesis by (simp add: child_def)
qed

lemma child_propagates:
  "getitem (children self) 0 = Inl e \<Longrightarrow> e \<noteq> IndexError \<Longrightarrow> child self = Inl e"
  by (cases e) (simp_all add: child_def)

text \<open>
  C4. A composite whose \<open>children\<close> list is empty: the accessor fails with the
  \<open>RuntimeError\<close> "A Composite must have at least one child Sampler". The accessor is
  a function of the instance alone, so every access gives this same failure.
\<close>

theorem child_empty_fails:
  "children self = PyList [] \<Longrightarrow>
     child self = Inl (RuntimeError ''A Composite must have at least one child Sampler'')"
  by (simp add: child_list no_child_message_def)

theorem child_empty_fails_witness:
  "children \<lparr>children = PyList ([] :: nat list)\<rparr> = PyList [] \<and>
   child \<lparr>children = PyList ([] :: nat list)\<rparr> =
     Inl (RuntimeError ''A Composite must have at least one child Sampler'')"
  using child_empty_fails [of "\<lparr>children = PyList ([] :: nat list)\<rparr>"] by simp

text \<open>
  C5. A composite whose \<open>children\<close> list has \<open>k \<ge> 1\<close> entries: the accessor returns
  the first entry, whatever \<open>k\<close> is and whatever the other entries are.
\<close>

theorem child_is_first:
  "children self = PyList xs \<Longrightarrow> 1 \<le> length xs \<Longrightarrow> child self = Inr (xs ! 0)"
  by (cases xs) (simp_all add: child_list)

theorem child_is_first_witness:
  "children \<lparr>children = PyList [7, 8, 9 :: nat]\<rparr> = PyList [7, 8, 9] \<and>
   1 \<le> length [7, 8, 9 :: nat] \<and>
   child \<lparr>children = PyList [7, 8, 9 :: nat]\<rparr> = Inr 7"
  using child_is_first [of "\<lparr>children = PyList [7, 8, 9 :: nat]\<rparr>" "[7, 8, 9]"] by simp

text \<open>
  C10. Only the index-out-of-range failure of \<open>children[0]\<close> becomes the
  \<open>RuntimeError\<close>: the accessor fails with it exactly when \<open>children[0]\<close> raises
  \<open>IndexError\<close>. When \<open>children\<close> does not support indexing (\<open>None\<close>, as in the
  docstring's class-level \<open>children = None\<close>), the \<open>TypeError\<close> of the subscript
  reaches the caller as it is; so does any other error of the subscript.
\<close>

theorem child_converts_only_index_error:
  "(child self = Inl (RuntimeError no_child_message) \<longleftrightarrow>
      getitem (children self) 0 = Inl IndexError) \<and>
   (\<not> subscriptable (children self) \<longrightarrow>
      getitem (children self) 0 = Inl TypeError \<and> child self = Inl TypeError) \<and>
   (children self = PyNone \<longrightarrow> child self = Inl TypeError) \<and>
   (\<forall>e. getitem (children self) 0 = Inl e \<and> e \<noteq> IndexError \<longrightarrow> child self = Inl e)"
proof -
  have a: "child self = Inl (RuntimeError no_child_message) \<longleftrightarrow>
      getitem (children self) 0 = Inl IndexError"
    by (simp add: child_runtime_iff)
  have b: "\<not> subscriptable (children self) \<longrightarrow>
      getitem (children self) 0 = Inl TypeError \<and> child self = Inl TypeError"
    by (cases "children self") (simp_all add: child_def)
  have c: "children self = PyNone \<longrightarrow> child self = Inl TypeError"
    by (simp add: child_def)
  have d: "\<forall>e. getitem (children self) 0 = Inl e \<and> e \<noteq> IndexError \<longrightarrow> child self = Inl e"
    using child_propagates by blast
  from a b c d show ?thesis by blast
qed

theorem child_converts_only_index_error_witness:
  "\<not> subscriptable (children \<lparr>children = (PyNone :: nat pyvalue)\<rparr>) \<and>
   children \<lparr>children = (PyNone :: nat pyvalue)\<rparr> = PyNone \<and>
   getitem (children \<lparr>children = (PyNone :: nat pyvalue)\<rparr>) 0 = Inl TypeError \<and>
   TypeError \<noteq> IndexError \<and>
   child \<lparr>children = (PyNone :: nat pyvalue)\<rparr> = Inl TypeError \<and>
   child \<lparr>children = (PyNone :: nat pyvalue)\<rparr> \<noteq> Inl (RuntimeError no_child_message)"
  using child_converts_only_index_error [of "\<lparr>children = (PyNone :: nat pyvalue)\<rparr>"]
  by simp

section \<open>The enumeration\<close>

lemma concat_map_append_each:
  "concat (map (\<lambda>x. map (\<lambda>t. x @ t) ts) (concat (map (\<lambda>x. map (\<lambda>y. x @ [y]) pool) acc))) =
   concat (map (\<lambda>x. map (\<lambda>t. x @ t) (concat (map (\<lambda>y. map (\<lambda>rest. y # rest) ts) pool))) acc)"
proof (induction acc)
  case Nil
  show ?case by simp
next
  case (Cons a acc)
  have inner: "concat (map (\<lambda>x. map (\<lambda>t. x @ t) ts) (map (\<lambda>y. a @ [y]) pool)) =
        map (\<lambda>t. a @ t) (concat (map (\<lambda>y. map (\<lambda>rest. y # rest) ts) pool))"
    by (induction pool) simp_all
  show ?case using Cons inner by simp
qed

lemma fold_product_step:
  "fold product_step (replicate n pool) acc =
     concat (map (\<lambda>x. map (\<lambda>t. x @ t) (lex_product pool n)) acc)"
proof (induction n arbitrary: acc)
  case 0
  show ?case by simp
next
  case (Suc n)
  have "fold product_step (replicate (Suc n) pool) acc =
        fold product_step (replicate n pool) (product_step pool acc)"
    by simp
  also have "\<dots> = concat (map (\<lambda>x. map (\<lambda>t. x @ t) (lex_product pool n)) (product_step pool acc))"
    by (rule Suc.IH)
  also have "\<dots> = concat (map (\<lambda>x. map (\<lambda>t. x @ t) (lex_product pool (Suc n))) acc)"
    unfolding product_step_def by (simp add: concat_map_append_each)
  finally show ?case .
qed

lemma itertools_product_lex: "itertools_product pool n = lex_product pool n"
proof -
  have e: "(@) ([] :: 'a list) = (\<lambda>t. t)"
    by (rule ext) simp
  show ?thesis
    unfolding itertools_product_def fold_product_step by (simp add: e)
qed

lemma lex_product_product_lists: "lex_product vals n = product_lists (replicate n vals)"
  by (induction n) simp_all

lemma length_lex_product: "length (lex_product vals n) = length vals ^ n"
proof (induction n)
  case 0
  show ?case by simp
next
  case (Suc n)
  have "length (concat (map (\<lambda>v. map (\<lambda>rest. v # rest) (lex_product vals n)) ws)) =
        length ws * length (lex_product vals n)" for ws
    by (induction ws) simp_all
  with Suc show ?case by simp
qed

lemma set_lex_product: "set (lex_product vals n) = {r. length r = n \<and> set r \<subseteq> set vals}"
proof (induction n)
  case 0
  show ?case by auto
next
  case (Suc n)
  show ?case
  proof (intro equalityI subsetI)
    fix r assume "r \<in> set (lex_product vals (Suc n))"
    then obtain v rest where "v \<in> set vals" "rest \<in> set (lex_product vals n)" "r = v # rest"
      by auto
    with Suc show "r \<in> {r. length r = Suc n \<and> set r \<subseteq> set vals}" by auto
  next
    fix r assume "r \<in> {r. length r = Suc n \<and> set r \<subseteq> set vals}"
    then obtain v rest where r: "r = v # rest" "length rest = n" "v \<in> set vals" "set rest \<subseteq> set vals"
      by (cases r) auto
    with Suc have "rest \<in> set (lex_product vals n)" by simp
    with r show "r \<in> set (lex_product vals (Suc n))" by auto
  qed
qed

lemma distinct_lex_product: "distinct vals \<Longrightarrow> distinct (lex_product vals n)"
  unfolding lex_product_product_lists
  by (rule distinct_product_lists) simp

lemma concat_blocks_nth:
  assumes "\<And>x. length (f x) = m" and "i < length xs * m"
  shows "concat (map f xs) ! i = f (xs ! (i div m)) ! (i mod m)"
  using assms(2)
proof (induction xs arbitrary: i)
  case Nil
  then show ?case by simp
next
  case (Cons x xs)
  then have "0 < m" by (cases m) auto
  with Cons assms(1) show ?case
    by (auto simp add: nth_append not_less le_mod_geq le_div_geq)
qed

lemma lex_product_nth_Suc:
  assumes "i < length vals ^ Suc n"
  shows "lex_product vals (Suc n) ! i =
         vals ! (i div length vals ^ n) # lex_product vals n ! (i mod length vals ^ n)"
proof -
  have len: "\<And>v. length (map (\<lambda>rest. v # rest) (lex_product vals n)) = length vals ^ n"
    by (simp add: length_lex_product)
  have pos: "0 < length vals ^ n" using assms by (cases "length vals ^ n") auto
  have "i mod length vals ^ n < length (lex_product vals n)"
    using pos by (simp add: length_lex_product)
  moreover have "lex_product vals (Suc n) ! i =
        map (\<lambda>rest. vals ! (i div length vals ^ n) # rest) (lex_product vals n) ! (i mod length vals ^ n)"
    using concat_blocks_nth [of "\<lambda>v. map (\<lambda>rest. v # rest) (lex_product vals n)" "length vals ^ n" i vals]
      len assms by simp
  ultimately show ?thesis by simp
qed

lemma div_mod_block: "(i mod (p * c)) div p = (i div p) mod (c::nat)"
proof (cases "p = 0")
  case True
  then show ?thesis by simp
next
  case False
  have "(i mod (p * c)) div p = (p * (i div p mod c) + i mod p) div p"
    by (simp only: mod_mult2_eq)
  also have "\<dots> = i div p mod c + (i mod p) div p"
    by (rule div_mult_self4 [OF False])
  also have "\<dots> = i div p mod c"
    by simp
  finally show ?thesis .
qed

lemma digit_mod:
  assumes "m < n"
  shows "((i mod b ^ n) div b ^ m) mod b = (i div b ^ m) mod (b::nat)"
proof -
  from less_imp_Suc_add [OF assms] obtain d where n: "n = Suc (m + d)" ..
  have pw: "b ^ n = b ^ m * (b * b ^ d)"
    unfolding n by (simp add: power_add)
  have "(i mod b ^ n) div b ^ m = (i div b ^ m) mod (b * b ^ d)"
    unfolding pw by (rule div_mod_block)
  moreover have "(i div b ^ m) mod (b * b ^ d) mod b = (i div b ^ m) mod b"
    by (rule mod_mod_cancel) (rule dvd_triv_left)
  ultimately show ?thesis by (simp only:)
qed


lemma lex_product_digit:
  "i < length vals ^ n \<Longrightarrow> j < n \<Longrightarrow>
     lex_product vals n ! i ! j = vals ! ((i div length vals ^ (n - 1 - j)) mod length vals)"
proof (induction n arbitrary: i j)
  case 0
  then show ?case by simp
next
  case (Suc n)
  let ?b = "length vals"
  have pos: "0 < ?b ^ n" using Suc.prems(1) by (cases "?b ^ n") auto
  show ?case
  proof (cases j)
    case 0
    have "i div ?b ^ n < ?b" using Suc.prems(1) pos
      by (simp add: less_mult_imp_div_less mult.commute)
    then show ?thesis using 0 Suc.prems lex_product_nth_Suc [of i vals n] by simp
  next
    case (Suc k)
    then have k: "k < n" using Suc.prems(2) by simp
    have lt: "i mod ?b ^ n < ?b ^ n" using pos by simp
    have "lex_product vals (Suc n) ! i ! j = lex_product vals n ! (i mod ?b ^ n) ! k"
      using Suc Suc.prems lex_product_nth_Suc [of i vals n] by simp
    also have "\<dots> = vals ! (((i mod ?b ^ n) div ?b ^ (n - 1 - k)) mod ?b)"
      using Suc.IH [OF lt k] .
    also have "((i mod ?b ^ n) div ?b ^ (n - 1 - k)) mod ?b = (i div ?b ^ (n - 1 - k)) mod ?b"
      using k by (simp add: digit_mod)
    finally show ?thesis using Suc by simp
  qed
qed

section \<open>Energies and the result set\<close>

lemma length_vartype_value: "length (vartype_value vt) = 2"
  by (cases vt) simp_all

lemma distinct_vartype_value: "distinct (vartype_value vt)"
  by (cases vt) simp_all

lemma linear_energy_ok:
  "list_all (\<lambda>(v, b). v \<in> dom s) l \<Longrightarrow> \<exists>t. linear_energy s l = Inr t"
  by (induction l) auto

lemma quadratic_energy_ok:
  "list_all (\<lambda>((u, v), b). u \<in> dom s \<and> v \<in> dom s) q \<Longrightarrow> \<exists>t. quadratic_energy s q = Inr t"
  by (induction q) auto

lemma dom_assignment_of:
  "length row = length labels \<Longrightarrow> dom (assignment_of labels row) = set labels"
  by (simp add: assignment_of_def)

lemma energy_ok:
  assumes "wf_bqm bqm" and "length row = length (variables bqm)"
  shows "\<exists>en. energy bqm (assignment_of (variables bqm) row) = Inr en"
proof -
  let ?s = "assignment_of (variables bqm) row"
  have d: "dom ?s = set (variables bqm)"
    using assms(2) by (rule dom_assignment_of)
  from assms(1) have "list_all (\<lambda>(v, b). v \<in> dom ?s) (linear_biases bqm)"
    unfolding wf_bqm_def d by simp
  then obtain l where l: "linear_energy ?s (linear_biases bqm) = Inr l"
    using linear_energy_ok by blast
  from assms(1) have "list_all (\<lambda>((u, v), b). u \<in> dom ?s \<and> v \<in> dom ?s) (quadratic_biases bqm)"
    unfolding wf_bqm_def d by simp
  then obtain q where q: "quadratic_energy ?s (quadratic_biases bqm) = Inr q"
    using quadratic_energy_ok by blast
  show ?thesis by (simp add: energy_def l q)
qed

lemma energies_ok:
  assumes "wf_bqm bqm"
  shows "list_all (\<lambda>row. length row = length (variables bqm)) rows \<Longrightarrow>
         \<exists>ens. energies bqm (variables bqm) rows = Inr ens"
proof (induction rows)
  case Nil
  show ?case by simp
next
  case (Cons row rows)
  then obtain ens where ens: "energies bqm (variables bqm) rows = Inr ens" by auto
  from Cons.prems have "length row = length (variables bqm)" by simp
  with assms obtain en where "energy bqm (assignment_of (variables bqm) row) = Inr en"
    using energy_ok by blast
  with ens show ?case by simp
qed

lemma energies_Inr:
  "energies bqm labels rows = Inr ens \<Longrightarrow>
     list_all2 (\<lambda>row en. energy bqm (assignment_of labels row) = Inr en) rows ens"
proof (induction rows arbitrary: ens)
  case Nil
  then show ?case by simp
next
  case (Cons row rows)
  then show ?case
    by (auto split: sum.splits)
qed

lemma from_samples_bqm_Inr:
  assumes "from_samples_bqm (rows, labels) bqm = Inr ss"
  shows "\<exists>ens. energies bqm labels rows = Inr ens \<and> length ens = length rows \<and>
           records ss = map (\<lambda>(row, en). (row, en, 1)) (zip rows ens) \<and>
           ss_variables ss = labels \<and> ss_vartype ss = vartype bqm"
proof -
  from assms obtain ens where ens: "energies bqm labels rows = Inr ens"
    and ss: "ss = from_samples (rows, labels) (vartype bqm) ens"
    by (auto simp: from_samples_bqm_def split: sum.splits)
  from energies_Inr [OF ens] have "length ens = length rows"
    by (simp add: list_all2_lengthD)
  with ens ss show ?thesis by (simp add: from_samples_def)
qed

lemma rows_of_zip:
  "length ens = length rows \<Longrightarrow>
     map fst (map (\<lambda>(row, en). (row, en, c)) (zip rows ens)) = rows"
  by (induction rows ens rule: list_induct2') simp_all

lemma sample_enumerates:
  "0 < length (variables bqm) \<Longrightarrow>
     sample self bqm =
       (from_samples_bqm
          (lex_product (vartype_value (vartype bqm)) (length (variables bqm)), variables bqm) bqm,
        self)"
  by (simp add: sample_def Let_def itertools_product_lex)

lemma sample_empty:
  "length (variables bqm) = 0 \<Longrightarrow>
     sample self bqm = (Inr \<lparr>records = [], ss_variables = [], ss_vartype = vartype bqm\<rparr>, self)"
  by (simp add: sample_def from_samples_def)

lemma sample_returns:
  assumes "wf_bqm bqm"
  shows "\<exists>ss. fst (sample self bqm) = Inr ss"
proof (cases "length (variables bqm) = 0")
  case True
  then show ?thesis by (simp add: sample_empty)
next
  case False
  let ?rows = "lex_product (vartype_value (vartype bqm)) (length (variables bqm))"
  have "list_all (\<lambda>row. length row = length (variables bqm)) ?rows"
    by (simp add: list_all_iff set_lex_product)
  with assms obtain ens where "energies bqm (variables bqm) ?rows = Inr ens"
    using energies_ok by blast
  with False show ?thesis
    by (simp add: sample_enumerates from_samples_bqm_def)
qed

lemma sample_rows:
  assumes "0 < length (variables bqm)" and "fst (sample self bqm) = Inr ss"
  shows "map fst (records ss) =
           lex_product (vartype_value (vartype bqm)) (length (variables bqm))"
proof -
  let ?rows = "lex_product (vartype_value (vartype bqm)) (length (variables bqm))"
  from assms have "from_samples_bqm (?rows, variables bqm) bqm = Inr ss"
    by (simp add: sample_enumerates)
  from from_samples_bqm_Inr [OF this] obtain ens where
    "length ens = length ?rows" "records ss = map (\<lambda>(row, en). (row, en, 1)) (zip ?rows ens)"
    by blast
  then show ?thesis by (simp only: rows_of_zip)
qed

lemma sample_example:
  "sample self example_bqm =
     (Inr \<lparr>records = [([1, 1], - 1, 1), ([1, - 1], 0, 1), ([- 1, 1], 3, 1), ([- 1, - 1], - 2, 1)],
           ss_variables = [''a'', ''b''], ss_vartype = SPIN\<rparr>, self)"
  by (simp add: sample_def example_bqm_def itertools_product_def product_step_def
      from_samples_bqm_def from_samples_def energy_def assignment_of_def)

lemma sample_malformed: "sample self malformed_bqm = (Inl KeyError, self)"
  by (simp add: sample_def malformed_bqm_def itertools_product_def product_step_def
      from_samples_bqm_def from_samples_def energy_def assignment_of_def)

lemma wf_example_bqm: "wf_bqm example_bqm"
  by (simp add: wf_bqm_def example_bqm_def)

lemma sample_fst_self: "fst (sample self' bqm) = fst (sample self bqm)"
  by (simp add: sample_def Let_def)

lemma sample_snd: "snd (sample self bqm) = self"
  by (simp add: sample_def Let_def)

lemma card_vartype_value: "card (set (vartype_value vt)) = 2"
  by (cases vt) simp_all

lemma sample_records:
  assumes "0 < length (variables bqm)" and "fst (sample self bqm) = Inr ss"
  shows "list_all2 (\<lambda>row r. r = (row, fst (snd r), 1) \<and>
            energy bqm (assignment_of (variables bqm) row) = Inr (fst (snd r)))
           (lex_product (vartype_value (vartype bqm)) (length (variables bqm))) (records ss) \<and>
         ss_variables ss = variables bqm \<and> ss_vartype ss = vartype bqm"
proof -
  let ?rows = "lex_product (vartype_value (vartype bqm)) (length (variables bqm))"
  from assms have "from_samples_bqm (?rows, variables bqm) bqm = Inr ss"
    by (simp add: sample_enumerates)
  from from_samples_bqm_Inr [OF this] obtain ens where
    ens: "energies bqm (variables bqm) ?rows = Inr ens"
    and recs: "records ss = map (\<lambda>(row, en). (row, en, 1)) (zip ?rows ens)"
    and tags: "ss_variables ss = variables bqm" "ss_vartype ss = vartype bqm"
    by blast
  have "list_all2 (\<lambda>row en. energy bqm (assignment_of (variables bqm) row) = Inr en) rows es \<Longrightarrow>
        list_all2 (\<lambda>row r. r = (row, fst (snd r), 1) \<and>
            energy bqm (assignment_of (variables bqm) row) = Inr (fst (snd r)))
          rows (map (\<lambda>(row, en). (row, en, 1::nat)) (zip rows es))" for rows es
    by (induction rows es rule: list_all2_induct) simp_all
  with energies_Inr [OF ens] recs tags show ?thesis by simp
qed

lemma enumeration_of_nothing:
  "from_samples_bqm (itertools_product vals 0, labels) bqm \<noteq>
     Inr \<lparr>records = [], ss_variables = vs, ss_vartype = vt\<rparr>"
proof
  assume "from_samples_bqm (itertools_product vals 0, labels) bqm =
     Inr \<lparr>records = [], ss_variables = vs, ss_vartype = vt\<rparr>"
  then have "from_samples_bqm ([[]], labels) bqm =
     Inr \<lparr>records = [], ss_variables = vs, ss_vartype = vt\<rparr>"
    by (simp add: itertools_product_def)
  from from_samples_bqm_Inr [OF this] show False by auto
qed

section \<open>Properties of the exact solver\<close>

text \<open>
  C1. For a model with \<open>n \<ge> 1\<close> variables the domain has two values, and the
  result set that \<open>sample\<close> returns holds exactly \<open>2 ^ n\<close> samples, no two of
  them equal, and they are exactly the vectors of length \<open>n\<close> over the two values of
  the domain: every assignment occurs once. A model that keeps the invariant of the
  spec gets a result set; the counting holds for every result set returned.
\<close>

theorem exact_solver_enumerates_all:
  assumes "1 \<le> length (variables bqm)"
  shows "card (set (vartype_value (vartype bqm))) = 2 \<and>
         (wf_bqm bqm \<longrightarrow> (\<exists>ss. fst (sample self bqm) = Inr ss)) \<and>
         (\<forall>ss. fst (sample self bqm) = Inr ss \<longrightarrow>
            length (records ss) = 2 ^ length (variables bqm) \<and>
            distinct (map fst (records ss)) \<and>
            set (map fst (records ss)) =
              {row. length row = length (variables bqm) \<and>
                    set row \<subseteq> set (vartype_value (vartype bqm))})"
proof (intro conjI allI impI)
  show "card (set (vartype_value (vartype bqm))) = 2"
    by (rule card_vartype_value)
next
  assume "wf_bqm bqm"
  then show "\<exists>ss. fst (sample self bqm) = Inr ss"
    by (rule sample_returns)
next
  fix ss assume ss: "fst (sample self bqm) = Inr ss"
  have pos: "0 < length (variables bqm)"
    using assms by (cases "variables bqm") simp_all
  note rows = sample_rows [OF pos ss]
  have "length (map fst (records ss)) = 2 ^ length (variables bqm)"
    unfolding rows by (simp add: length_lex_product length_vartype_value)
  then show "length (records ss) = 2 ^ length (variables bqm)" by simp
  show "distinct (map fst (records ss))"
    unfolding rows by (rule distinct_lex_product) (rule distinct_vartype_value)
  show "set (map fst (records ss)) =
          {row. length row = length (variables bqm) \<and>
                set row \<subseteq> set (vartype_value (vartype bqm))}"
    unfolding rows by (rule set_lex_product)
qed

theorem exact_solver_enumerates_all_witness:
  "1 \<le> length (variables example_bqm) \<and> wf_bqm example_bqm \<and>
   (\<exists>ss. fst (sample (init class_attributes) example_bqm) = Inr ss \<and>
      length (records ss) = 4 \<and>
      map fst (records ss) = [[1, 1], [1, - 1], [- 1, 1], [- 1, - 1]] \<and>
      distinct (map fst (records ss)) \<and>
      set (map fst (records ss)) =
        {row. length row = 2 \<and> set row \<subseteq> set (vartype_value SPIN)})"
proof -
  have n: "1 \<le> length (variables example_bqm)" "length (variables example_bqm) = 2"
    "vartype example_bqm = SPIN"
    by (simp_all add: example_bqm_def)
  from exact_solver_enumerates_all [OF n(1), of "init class_attributes"] wf_example_bqm n
  show ?thesis
    by (simp add: sample_example)
qed

text \<open>
  C2. For every record of the result set that \<open>sample\<close> returns, the recorded
  energy is the value of the model's energy evaluation (linear contribution plus
  quadratic contribution plus offset) on the assignment that the record's vector gives
  to the variables of the result set. A model that keeps the invariant of the spec
  gets a result set.
\<close>

theorem exact_solver_energies:
  "(wf_bqm bqm \<longrightarrow> (\<exists>ss. fst (sample self bqm) = Inr ss)) \<and>
   (\<forall>ss. fst (sample self bqm) = Inr ss \<longrightarrow>
      (\<forall>r \<in> set (records ss).
         energy bqm (assignment_of (ss_variables ss) (fst r)) = Inr (fst (snd r))))"
proof (intro conjI allI impI ballI)
  assume "wf_bqm bqm"
  then show "\<exists>ss. fst (sample self bqm) = Inr ss"
    by (rule sample_returns)
next
  fix ss r
  assume ss: "fst (sample self bqm) = Inr ss" and r: "r \<in> set (records ss)"
  show "energy bqm (assignment_of (ss_variables ss) (fst r)) = Inr (fst (snd r))"
  proof (cases "length (variables bqm) = 0")
    case True
    with ss r show ?thesis by (auto simp: sample_empty)
  next
    case False
    then have pos: "0 < length (variables bqm)"
      by (cases "variables bqm") simp_all
    from sample_records [OF pos ss] have
      l2: "list_all2 (\<lambda>row r. r = (row, fst (snd r), 1) \<and>
            energy bqm (assignment_of (variables bqm) row) = Inr (fst (snd r)))
           (lex_product (vartype_value (vartype bqm)) (length (variables bqm))) (records ss)"
      and v: "ss_variables ss = variables bqm"
      by simp_all
    from r obtain i where i: "i < length (records ss)" "records ss ! i = r"
      by (auto simp: in_set_conv_nth)
    from list_all2_nthD2 [OF l2 i(1)] i(2) v show ?thesis
      by (metis fst_conv)
  qed
qed

theorem exact_solver_energies_witness:
  "wf_bqm example_bqm \<and>
   fst (sample (init class_attributes) example_bqm) =
     Inr \<lparr>records = [([1, 1], - 1, 1), ([1, - 1], 0, 1), ([- 1, 1], 3, 1), ([- 1, - 1], - 2, 1)],
          ss_variables = [''a'', ''b''], ss_vartype = SPIN\<rparr> \<and>
   energy example_bqm (assignment_of [''a'', ''b''] [1, 1]) = Inr (- 1) \<and>
   energy example_bqm (assignment_of [''a'', ''b''] [1, - 1]) = Inr 0 \<and>
   energy example_bqm (assignment_of [''a'', ''b''] [- 1, 1]) = Inr 3 \<and>
   energy example_bqm (assignment_of [''a'', ''b''] [- 1, - 1]) = Inr (- 2)"
  using exact_solver_energies [of example_bqm "init class_attributes"] wf_example_bqm
  by (simp add: sample_example)

text \<open>
  C3. For a model with no variables \<open>sample\<close> returns the empty result set: no
  records, hence no samples and no energies, tagged with the model's domain. It is the
  value of the build-from-empty constructor, not of the enumeration: the product over
  zero positions is the single empty vector, and the result set built from it is a
  different one (it would hold one record, or the error of the energy evaluation).
\<close>

theorem exact_solver_no_variables:
  assumes "length (variables bqm) = 0"
  shows "sample self bqm =
           (Inr \<lparr>records = [], ss_variables = [], ss_vartype = vartype bqm\<rparr>, self) \<and>
         itertools_product (vartype_value (vartype bqm)) (length (variables bqm)) = [[]] \<and>
         fst (sample self bqm) \<noteq>
           from_samples_bqm
             (itertools_product (vartype_value (vartype bqm)) (length (variables bqm)),
              variables bqm) bqm"
proof (intro conjI)
  show "sample self bqm =
          (Inr \<lparr>records = [], ss_variables = [], ss_vartype = vartype bqm\<rparr>, self)"
    using assms by (rule sample_empty)
  show "itertools_product (vartype_value (vartype bqm)) (length (variables bqm)) = [[]]"
    using assms by (simp add: itertools_product_def)
  show "fst (sample self bqm) \<noteq>
          from_samples_bqm
            (itertools_product (vartype_value (vartype bqm)) (length (variables bqm)),
             variables bqm) bqm"
    using enumeration_of_nothing [of "vartype_value (vartype bqm)" "variables bqm" bqm
        "[]" "vartype bqm"] assms
    by (simp add: sample_empty)
qed

theorem exact_solver_no_variables_witness:
  "length (variables \<lparr>variables = ([] :: string list), linear_biases = [],
      quadratic_biases = [], offset = 5, vartype = BINARY\<rparr>) = 0 \<and>
   sample (init class_attributes) \<lparr>variables = ([] :: string list), linear_biases = [],
      quadratic_biases = [], offset = 5, vartype = BINARY\<rparr> =
     (Inr \<lparr>records = [], ss_variables = [], ss_vartype = BINARY\<rparr>, init class_attributes) \<and>
   from_samples_bqm ([[]], []) \<lparr>variables = ([] :: string list), linear_biases = [],
      quadratic_biases = [], offset = 5, vartype = BINARY\<rparr> =
     Inr \<lparr>records = [([], 5, 1)], ss_variables = [], ss_vartype = BINARY\<rparr>"
  using exact_solver_no_variables [of "\<lparr>variables = ([] :: string list), linear_biases = [],
      quadratic_biases = [], offset = 5, vartype = BINARY\<rparr>" "init class_attributes"]
  by (simp add: from_samples_bqm_def from_samples_def energy_def assignment_of_def)

text \<open>
  C6. For a model with \<open>n \<ge> 1\<close> variables the samples of the result set are, in
  order, the lexicographic product of the domain's two values over the \<open>n\<close>
  positions, first position outermost: the sample at index \<open>i\<close> has at position
  \<open>j\<close> the value selected by the binary digit of \<open>i\<close> of weight
  \<open>2 ^ (n - 1 - j)\<close>. The result does not depend on the solver instance: every call on
  the same model returns the same result set.
\<close>

theorem exact_solver_order:
  assumes "1 \<le> length (variables bqm)"
  shows "(wf_bqm bqm \<longrightarrow> (\<exists>ss. fst (sample self bqm) = Inr ss)) \<and>
         (\<forall>ss. fst (sample self bqm) = Inr ss \<longrightarrow>
            map fst (records ss) =
              lex_product (vartype_value (vartype bqm)) (length (variables bqm)) \<and>
            (\<forall>i j. i < 2 ^ length (variables bqm) \<and> j < length (variables bqm) \<longrightarrow>
               map fst (records ss) ! i ! j =
                 vartype_value (vartype bqm) !
                   ((i div 2 ^ (length (variables bqm) - 1 - j)) mod 2)) \<and>
            (\<forall>self' ss'. fst (sample self' bqm) = Inr ss' \<longrightarrow> ss' = ss))"
proof (intro conjI allI impI)
  assume "wf_bqm bqm"
  then show "\<exists>ss. fst (sample self bqm) = Inr ss"
    by (rule sample_returns)
next
  fix ss assume ss: "fst (sample self bqm) = Inr ss"
  have pos: "0 < length (variables bqm)"
    using assms by (cases "variables bqm") simp_all
  show "map fst (records ss) =
      lex_product (vartype_value (vartype bqm)) (length (variables bqm))"
    by (rule sample_rows [OF pos ss])
next
  fix ss and i j :: nat
  assume ss: "fst (sample self bqm) = Inr ss"
    and ij: "i < 2 ^ length (variables bqm) \<and> j < length (variables bqm)"
  have pos: "0 < length (variables bqm)"
    using assms by (cases "variables bqm") simp_all
  have rows: "map fst (records ss) =
      lex_product (vartype_value (vartype bqm)) (length (variables bqm))"
    by (rule sample_rows [OF pos ss])
  from ij have "i < length (vartype_value (vartype bqm)) ^ length (variables bqm)"
    by (simp add: length_vartype_value)
  from lex_product_digit [OF this, of j] ij
  show "map fst (records ss) ! i ! j =
          vartype_value (vartype bqm) ! ((i div 2 ^ (length (variables bqm) - 1 - j)) mod 2)"
    unfolding rows by (simp add: length_vartype_value)
next
  fix ss self' ss'
  assume "fst (sample self bqm) = Inr ss" and "fst (sample self' bqm) = Inr ss'"
  with sample_fst_self [of self' bqm self] show "ss' = ss" by simp
qed

theorem exact_solver_order_witness:
  "1 \<le> length (variables example_bqm) \<and> wf_bqm example_bqm \<and>
   fst (sample (init class_attributes) example_bqm) =
     Inr \<lparr>records = [([1, 1], - 1, 1), ([1, - 1], 0, 1), ([- 1, 1], 3, 1), ([- 1, - 1], - 2, 1)],
          ss_variables = [''a'', ''b''], ss_vartype = SPIN\<rparr> \<and>
   [[1, 1], [1, - 1], [- 1, 1], [- 1, - 1]] =
     lex_product (vartype_value (vartype example_bqm)) (length (variables example_bqm)) \<and>
   [[1, 1], [1, - 1], [- 1, 1], [- 1, - 1 :: int]] ! 2 ! 0 = vartype_value SPIN ! 1"
proof -
  let ?ss = "\<lparr>records = [([1, 1], - 1, 1), ([1, - 1], 0, 1), ([- 1, 1], 3, 1), ([- 1, - 1], - 2, 1)],
          ss_variables = [''a'', ''b''], ss_vartype = SPIN\<rparr> :: string sampleset"
  have n: "1 \<le> length (variables example_bqm)"
    by (simp add: example_bqm_def)
  have s: "fst (sample (init class_attributes) example_bqm) = Inr ?ss"
    by (simp add: sample_example)
  from exact_solver_order [OF n, of "init class_attributes"] s
  have "map fst (records ?ss) =
      lex_product (vartype_value (vartype example_bqm)) (length (variables example_bqm))"
    by blast
  then have r: "[[1, 1], [1, - 1], [- 1, 1], [- 1, - 1]] =
      lex_product (vartype_value (vartype example_bqm)) (length (variables example_bqm))"
    by simp
  have d: "[[1, 1], [1, - 1], [- 1, 1], [- 1, - 1 :: int]] ! 2 ! 0 = vartype_value SPIN ! 1"
    by simp
  from n wf_example_bqm s r d show ?thesis by blast
qed

text \<open>
  C7. For a model with \<open>n \<ge> 1\<close> variables every record of the result set has the
  occurrence count 1, the result set carries the model's variable order and domain, and
  its records are, one for one and in the same order, the enumerated vectors with their
  energies: nothing is merged, reordered or dropped.
\<close>

theorem exact_solver_assembles_unchanged:
  assumes "1 \<le> length (variables bqm)"
  shows "(wf_bqm bqm \<longrightarrow> (\<exists>ss. fst (sample self bqm) = Inr ss)) \<and>
         (\<forall>ss. fst (sample self bqm) = Inr ss \<longrightarrow>
            (\<forall>r \<in> set (records ss). snd (snd r) = 1) \<and>
            ss_variables ss = variables bqm \<and>
            ss_vartype ss = vartype bqm \<and>
            list_all2
              (\<lambda>row r. r = (row, fst (snd r), 1) \<and>
                 energy bqm (assignment_of (variables bqm) row) = Inr (fst (snd r)))
              (itertools_product (vartype_value (vartype bqm)) (length (variables bqm)))
              (records ss))"
proof (intro conjI allI impI)
  assume "wf_bqm bqm"
  then show "\<exists>ss. fst (sample self bqm) = Inr ss"
    by (rule sample_returns)
next
  fix ss assume ss: "fst (sample self bqm) = Inr ss"
  have pos: "0 < length (variables bqm)"
    using assms by (cases "variables bqm") simp_all
  note recs = sample_records [OF pos ss]
  from recs show "ss_variables ss = variables bqm" by simp
  from recs show "ss_vartype ss = vartype bqm" by simp
  from recs show l2: "list_all2
      (\<lambda>row r. r = (row, fst (snd r), 1) \<and>
         energy bqm (assignment_of (variables bqm) row) = Inr (fst (snd r)))
      (itertools_product (vartype_value (vartype bqm)) (length (variables bqm)))
      (records ss)"
    by (simp add: itertools_product_lex)
  show "\<forall>r \<in> set (records ss). snd (snd r) = 1"
  proof
    fix r assume "r \<in> set (records ss)"
    then obtain i where i: "i < length (records ss)" "records ss ! i = r"
      by (auto simp: in_set_conv_nth)
    from list_all2_nthD2 [OF l2 i(1)] i(2) show "snd (snd r) = 1"
      by (metis snd_conv)
  qed
qed

theorem exact_solver_assembles_unchanged_witness:
  "1 \<le> length (variables example_bqm) \<and> wf_bqm example_bqm \<and>
   itertools_product (vartype_value SPIN) 2 = [[1, 1], [1, - 1], [- 1, 1], [- 1, - 1]] \<and>
   (\<exists>ss. fst (sample (init class_attributes) example_bqm) = Inr ss \<and>
      records ss = [([1, 1], - 1, 1), ([1, - 1], 0, 1), ([- 1, 1], 3, 1), ([- 1, - 1], - 2, 1)] \<and>
      ss_variables ss = variables example_bqm \<and>
      ss_vartype ss = vartype example_bqm)"
proof -
  have n: "1 \<le> length (variables example_bqm)"
    by (simp add: example_bqm_def)
  have l: "itertools_product (vartype_value SPIN) 2 = [[1, 1], [1, - 1], [- 1, 1], [- 1, - 1]]"
    by (simp add: itertools_product_def product_step_def eval_nat_numeral)
  from exact_solver_assembles_unchanged [OF n, of "init class_attributes"] wf_example_bqm n l
  show ?thesis
    by (simp add: sample_example)
qed

text \<open>
  C8 (amended). The entry point is \<open>sample(model)\<close>: for every model, the call
  that passes no keyword configuration option runs the solver, and returns a result set
  when the model keeps the invariant of the spec; a call that passes any keyword
  configuration option is rejected with \<open>TypeError\<close>, since the signature has no
  keyword catch-all.
\<close>

theorem sample_call_without_keywords:
  "sample_call self bqm ([] :: (string \<times> 'k) list) = sample self bqm \<and>
   (wf_bqm bqm \<longrightarrow> (\<exists>ss. fst (sample_call self bqm ([] :: (string \<times> 'k) list)) = Inr ss)) \<and>
   (configuration \<noteq> [] \<longrightarrow>
      sample_call self bqm (configuration :: (string \<times> 'k) list) = (Inl TypeError, self))"
  using sample_returns [of bqm self] by (simp add: sample_call_def)

theorem sample_call_without_keywords_witness:
  "wf_bqm example_bqm \<and>
   sample_call (init class_attributes) example_bqm ([] :: (string \<times> int) list) =
     (Inr \<lparr>records = [([1, 1], - 1, 1), ([1, - 1], 0, 1), ([- 1, 1], 3, 1), ([- 1, - 1], - 2, 1)],
           ss_variables = [''a'', ''b''], ss_vartype = SPIN\<rparr>, init class_attributes) \<and>
   [(''num_reads'', 10 :: int)] \<noteq> [] \<and>
   sample_call (init class_attributes) example_bqm [(''num_reads'', 10 :: int)] =
     (Inl TypeError, init class_attributes)"
  using sample_call_without_keywords [of "init class_attributes" example_bqm
      "[(''num_reads'', 10 :: int)]"] wf_example_bqm
  by (simp add: sample_example)

text \<open>
  As the spec words it, with arbitrary keyword configuration options accepted, the
  claim fails: the call \<open>sample(model, num_reads=10)\<close> on the docstring's model raises
  \<open>TypeError\<close>.
\<close>

theorem sample_call_keyword_counterexample:
  "fst (sample_call (init class_attributes) example_bqm [(''num_reads'', 10 :: int)]) =
     Inl TypeError"
  by (simp add: sample_call_def)

text \<open>
  C9. After construction \<open>properties\<close> and \<open>parameters\<close> are empty maps, and a call
  of \<open>sample\<close> leaves the instance as it was, whether it returns a result set or an
  error, and whether or not the call passes keywords.
\<close>

theorem exact_solver_state:
  "properties (init self0) = Some Map.empty \<and>
   parameters (init self0) = Some Map.empty \<and>
   snd (sample self bqm) = self \<and>
   snd (sample_call self bqm configuration) = self"
  by (simp add: init_def sample_call_def sample_snd)

theorem exact_solver_state_witness:
  "properties (init class_attributes) = Some Map.empty \<and>
   parameters (init class_attributes) = Some Map.empty \<and>
   sample (init class_attributes) example_bqm =
     (Inr \<lparr>records = [([1, 1], - 1, 1), ([1, - 1], 0, 1), ([- 1, 1], 3, 1), ([- 1, - 1], - 2, 1)],
           ss_variables = [''a'', ''b''], ss_vartype = SPIN\<rparr>, init class_attributes) \<and>
   sample (init class_attributes) malformed_bqm = (Inl KeyError, init class_attributes) \<and>
   sample_call (init class_attributes) example_bqm [(''num_reads'', 10 :: int)] =
     (Inl TypeError, init class_attributes)"
  using exact_solver_state [of class_attributes "init class_attributes" example_bqm
      "[(''num_reads'', 10 :: int)]"]
  by (simp add: sample_example sample_malformed sample_call_def)

end
